theory Spec2Isabelle
  imports Main "HOL-Library.Log_Nat" "HOL-Library.Sublist"
begin

section \<open>JavaScript numbers\<close>

text \<open>
  A JavaScript number is an IEEE 754 binary64 value. A finite one is a rational number and
  is kept as that rational; the two infinities and NaN are constructors of their own. The
  sign of zero is not kept: no function of this development divides by a computed value or
  compares with \<^verbatim>\<open>Object.is\<close>, so \<^verbatim>\<open>-0\<close> and \<^verbatim>\<open>0\<close> behave alike here.
  An arithmetic result is the exact rational result rounded to the nearest binary64 value,
  ties to even (\<open>round_double\<close>).
\<close>

datatype jsnum = NaN | PInf | NInf | Fin rat

definition pow2 :: "int \<Rightarrow> rat" where
  "pow2 e = (if 0 \<le> e then 2 ^ nat e else 1 / 2 ^ nat (- e))"

definition pow10 :: "int \<Rightarrow> rat" where
  "pow10 e = (if 0 \<le> e then 10 ^ nat e else 1 / 10 ^ nat (- e))"

text \<open>\<open>ilog2 a\<close> is the binary exponent of \<open>a > 0\<close>: \<open>2 ^ ilog2 a \<le> a < 2 ^ (ilog2 a + 1)\<close>;
  \<open>ilog10\<close> is the same in base ten.\<close>

definition ilog2 :: "rat \<Rightarrow> int" where
  "ilog2 a = (let (p, d) = quotient_of a; e0 = bitlen p - bitlen d
              in if pow2 e0 \<le> a then e0 else e0 - 1)"

text \<open>The number of decimal digits of a positive integer (0 for any other).\<close>

function ndigits :: "int \<Rightarrow> int" where
  "ndigits n = (if n \<le> 0 then 0 else ndigits (n div 10) + 1)"
  by pat_completeness auto
termination
  by (relation "measure nat") auto

declare ndigits.simps [simp del]

definition ilog10 :: "rat \<Rightarrow> int" where
  "ilog10 a = (let (p, d) = quotient_of a; e0 = ndigits p - ndigits d
               in if pow10 e0 \<le> a then e0 else e0 - 1)"

definition round_half_even :: "rat \<Rightarrow> int" where
  "round_half_even y = (let n = \<lfloor>y\<rfloor>; r = y - of_int n
     in if r < 1/2 then n else if 1/2 < r then n + 1 else if even n then n else n + 1)"

text \<open>Rounding of a positive magnitude to 53 significant bits, with the exponent held at
  \<open>-1022\<close> for subnormal values.\<close>

definition round_mag :: "rat \<Rightarrow> rat" where
  "round_mag a = (let e = max (ilog2 a) (- 1022) - 52
                  in of_int (round_half_even (a / pow2 e)) * pow2 e)"

definition round_double :: "rat \<Rightarrow> jsnum" where
  "round_double q = (if q = 0 then Fin 0
     else let r = round_mag \<bar>q\<bar>
          in if 2 ^ 1024 \<le> r then (if q < 0 then NInf else PInf)
             else Fin (if q < 0 then - r else r))"

text \<open>The operators the sources apply to numbers: \<^verbatim>\<open>/\<close>, \<^verbatim>\<open>*\<close>, \<^verbatim>\<open>% 1\<close>,
  \<^verbatim>\<open>Math.abs\<close>, \<^verbatim>\<open>isNaN\<close>, \<^verbatim>\<open><\<close> and \<^verbatim>\<open>>=\<close>.\<close>

fun js_div :: "jsnum \<Rightarrow> jsnum \<Rightarrow> jsnum" where
  "js_div NaN _ = NaN"
| "js_div _ NaN = NaN"
| "js_div (Fin x) (Fin y) =
     (if y = 0 then (if x = 0 then NaN else if x < 0 then NInf else PInf)
      else round_double (x / y))"
| "js_div (Fin x) _ = Fin 0"
| "js_div PInf (Fin y) = (if y < 0 then NInf else PInf)"
| "js_div NInf (Fin y) = (if y < 0 then PInf else NInf)"
| "js_div _ _ = NaN"


text \<open>\<^verbatim>\<open>x % 1\<close>: the remainder keeps the sign of \<open>x\<close> and is exact.\<close>

fun js_mod1 :: "jsnum \<Rightarrow> jsnum" where
  "js_mod1 (Fin x) = Fin (if x < 0 then - (- x - of_int \<lfloor>- x\<rfloor>) else x - of_int \<lfloor>x\<rfloor>)"
| "js_mod1 _ = NaN"

fun Math_abs :: "jsnum \<Rightarrow> jsnum" where
  "Math_abs (Fin x) = Fin \<bar>x\<bar>"
| "Math_abs NInf = PInf"
| "Math_abs x = x"

fun num_isNaN :: "jsnum \<Rightarrow> bool" where
  "num_isNaN NaN = True"
| "num_isNaN _ = False"

fun js_less :: "jsnum \<Rightarrow> jsnum \<Rightarrow> bool" where
  "js_less NaN _ = False"
| "js_less _ NaN = False"
| "js_less (Fin x) (Fin y) = (x < y)"
| "js_less NInf NInf = False"
| "js_less NInf _ = True"
| "js_less _ NInf = False"
| "js_less PInf _ = False"
| "js_less _ PInf = True"

fun js_ge :: "jsnum \<Rightarrow> jsnum \<Rightarrow> bool" where
  "js_ge NaN _ = False"
| "js_ge _ NaN = False"
| "js_ge x y = (\<not> js_less x y)"

subsection \<open>Decimal digits and \<^verbatim>\<open>Number::toString\<close>\<close>

definition digit_char :: "nat \<Rightarrow> char" where
  "digit_char d = ''0123456789'' ! d"

fun digits :: "nat \<Rightarrow> string" where
  "digits n = (if n < 10 then [digit_char n] else digits (n div 10) @ [digit_char (n mod 10)])"

declare digits.simps [simp del]

text \<open>
  \<^verbatim>\<open>Number::toString\<close> prints the shortest decimal \<open>s \<times> 10 ^ (n - k)\<close>, with \<open>k\<close> digits in
  \<open>s\<close>, that reads back as the same number. For a given \<open>k\<close> the only candidates are the
  two \<open>k\<close>-digit decimals around \<open>x\<close>; the nearer one comes first.
\<close>

definition candidates :: "rat \<Rightarrow> int \<Rightarrow> nat \<Rightarrow> (int \<times> int) list" where
  "candidates x n0 k =
     (let y = x / pow10 (n0 - int k); lo = \<lfloor>y\<rfloor>; hi = lo + 1;
          c_lo = (lo, n0);
          c_hi = (if hi < 10 ^ k then (hi, n0) else (10 ^ (k - 1), n0 + 1));
          ok = (\<lambda>(s, n). round_double (of_int s * pow10 (n - int k)) = Fin x);
          dist = (\<lambda>(s, n). \<bar>of_int s * pow10 (n - int k) - x\<bar>);
          both = (if dist c_hi < dist c_lo \<or> (dist c_hi = dist c_lo \<and> even (fst c_hi))
                  then [c_hi, c_lo] else [c_lo, c_hi])
      in filter ok both)"

fun shortest :: "rat \<Rightarrow> int \<Rightarrow> nat \<Rightarrow> nat \<Rightarrow> (int \<times> int \<times> nat)" where
  "shortest x n0 k 0 = (0, n0, k)"
| "shortest x n0 k (Suc fuel) =
     (case candidates x n0 k of
        (s, n) # _ \<Rightarrow> (s, n, k)
      | [] \<Rightarrow> shortest x n0 (k + 1) fuel)"

definition Number_toString_pos :: "rat \<Rightarrow> string" where
  "Number_toString_pos x =
     (let (s, n, k) = shortest x (ilog10 x + 1) 1 17; ds = digits (nat s); e = n - 1
      in if int k \<le> n \<and> n \<le> 21 then ds @ replicate (nat (n - int k)) (CHR ''0'')
         else if 0 < n \<and> n \<le> 21 then take (nat n) ds @ ''.'' @ drop (nat n) ds
         else if - 6 < n \<and> n \<le> 0 then ''0.'' @ replicate (nat (- n)) (CHR ''0'') @ ds
         else (if k = 1 then ds else take 1 ds @ ''.'' @ drop 1 ds)
              @ ''e'' @ (if e < 0 then ''-'' else ''+'') @ digits (nat \<bar>e\<bar>))"

fun Number_toString :: "jsnum \<Rightarrow> string" where
  "Number_toString NaN = ''NaN''"
| "Number_toString PInf = ''Infinity''"
| "Number_toString NInf = ''-Infinity''"
| "Number_toString (Fin x) =
     (if x = 0 then ''0''
      else if x < 0 then ''-'' @ Number_toString_pos (- x)
      else Number_toString_pos x)"

section \<open>JavaScript values\<close>

text \<open>The values a JSON document parses to, and \<^verbatim>\<open>undefined\<close>. An object is the list of
  its own properties, one entry for each key.\<close>

datatype jsval =
    Undefined
  | Null
  | Bool bool
  | Num jsnum
  | Str string
  | Arr "jsval list"
  | Obj "(string \<times> jsval) list"

text \<open>What a \<^verbatim>\<open>throw\<close> carries: the class of the error object and its message.\<close>

datatype js_error = Error string | TypeError string | SyntaxError string


text \<open>\<^verbatim>\<open>ToBoolean\<close>, as \<^verbatim>\<open>||\<close>, \<^verbatim>\<open>!\<close> and \<^verbatim>\<open>if\<close> apply it.\<close>

fun truthy :: "jsval \<Rightarrow> bool" where
  "truthy Undefined = False"
| "truthy Null = False"
| "truthy (Bool b) = b"
| "truthy (Num NaN) = False"
| "truthy (Num (Fin x)) = (x \<noteq> 0)"
| "truthy (Num _) = True"
| "truthy (Str s) = (s \<noteq> [])"
| "truthy (Arr _) = True"
| "truthy (Obj _) = True"

text \<open>\<^verbatim>\<open>parts.join(sep)\<close>.\<close>

fun join_with :: "string \<Rightarrow> string list \<Rightarrow> string" where
  "join_with sep [] = []"
| "join_with sep [x] = x"
| "join_with sep (x # y # ys) = x @ sep @ join_with sep (y # ys)"

text \<open>\<^verbatim>\<open>ToString\<close>: an array joins its elements with commas, \<^verbatim>\<open>null\<close> and
  \<^verbatim>\<open>undefined\<close> elements printing as nothing; a plain object prints as
  \<^verbatim>\<open>[object Object]\<close>.\<close>

fun ToString :: "jsval \<Rightarrow> string" where
  "ToString Undefined = ''undefined''"
| "ToString Null = ''null''"
| "ToString (Bool b) = (if b then ''true'' else ''false'')"
| "ToString (Num x) = Number_toString x"
| "ToString (Str s) = s"
| "ToString (Arr xs) =
     join_with '','' (map (\<lambda>x. if x = Undefined \<or> x = Null then [] else ToString x) xs)"
| "ToString (Obj _) = ''[object Object]''"

text \<open>
  Property access \<^verbatim>\<open>v.k\<close> for the keys the sources read (\<^verbatim>\<open>message\<close>, \<^verbatim>\<open>error\<close>,
  \<^verbatim>\<open>data\<close> and the fields of a history record), none of which is a built-in property
  of a string, a number, a boolean or an array: an object gives its own property or
  \<^verbatim>\<open>undefined\<close>, \<^verbatim>\<open>null\<close> and \<^verbatim>\<open>undefined\<close> throw a TypeError, and every other
  value gives \<^verbatim>\<open>undefined\<close>.
\<close>

fun get_prop :: "jsval \<Rightarrow> string \<Rightarrow> js_error + jsval" where
  "get_prop (Obj kvs) k = Inr (case map_of kvs k of None \<Rightarrow> Undefined | Some v \<Rightarrow> v)"
| "get_prop Null k = Inl (TypeError (''Cannot read properties of null (reading '' @ [CHR 0x27] @ k @ [CHR 0x27] @ '')''))"
| "get_prop Undefined k = Inl (TypeError (''Cannot read properties of undefined (reading '' @ [CHR 0x27] @ k @ [CHR 0x27] @ '')''))"
| "get_prop _ k = Inr Undefined"

text \<open>\<^verbatim>\<open>s.includes(t)\<close>: \<open>t\<close> occurs in \<open>s\<close> as a contiguous substring.\<close>

fun str_includes :: "string \<Rightarrow> string \<Rightarrow> bool" where
  "str_includes [] t = (t = [])"
| "str_includes (c # cs) t = (prefix t (c # cs) \<or> str_includes cs t)"

section \<open>The API client (\<^verbatim>\<open>src/services/api.js\<close>)\<close>

definition API_BASE_URL :: string where
  "API_BASE_URL = ''https://api.defindex.io''"

definition KEY_NOT_SET :: string where
  "KEY_NOT_SET = ''VITE_DEFINDEX_API_KEY is not set. Please configure your API key in the environment variables.''"

definition NETWORK_ERROR :: string where
  "NETWORK_ERROR = ''Network error: Unable to connect to API. Please check your internet connection and CORS settings.''"

text \<open>
  \<^verbatim>\<open>API_KEY\<close> is \<^verbatim>\<open>import.meta.env.VITE_DEFINDEX_API_KEY\<close>: a string, or \<^verbatim>\<open>undefined\<close>
  (\<open>None\<close>) when the variable is not set. \<open>key_absent\<close> is the test \<^verbatim>\<open>!API_KEY\<close>, which
  an unset and an empty variable both pass.
\<close>

definition key_absent :: "string option \<Rightarrow> bool" where
  "key_absent k = (case k of None \<Rightarrow> True | Some s \<Rightarrow> s = [])"

record request =
  url :: string
  http_method :: string
  authorization :: string

record response =
  status :: nat
  statusText :: string
  body_text :: string

text \<open>\<^verbatim>\<open>response.ok\<close>: the status is in the range 200 to 299.\<close>

definition ok :: "response \<Rightarrow> bool" where
  "ok r = (200 \<le> status r \<and> status r \<le> 299)"

text \<open>
  The platform: \<^verbatim>\<open>fetch\<close> either rejects (no response was received) or resolves with a
  response, whatever its status; the outcome may depend on the request and on how many
  requests were issued before it. \<^verbatim>\<open>JSON.parse\<close> returns a value or throws a SyntaxError
  (\<open>Inl\<close> its message).
\<close>

datatype fetch_result = Rejected js_error | Resolved response

record platform =
  net :: "nat \<Rightarrow> request \<Rightarrow> fetch_result"
  JSON_parse :: "string \<Rightarrow> string + jsval"

text \<open>The state of the network side is the list of requests issued so far; a call of
  \<^verbatim>\<open>fetch\<close> appends one request to it.\<close>

definition fetch :: "platform \<Rightarrow> request \<Rightarrow> request list \<Rightarrow> fetch_result \<times> request list" where
  "fetch pf req reqs = (net pf (length reqs) req, reqs @ [req])"

text \<open>The body of \<^verbatim>\<open>if (!response.ok) { ... }\<close>: the message of the error thrown for a
  response outside 2xx. \<open>what\<close> is the text after \<^verbatim>\<open>Failed to fetch\<close>.\<close>

definition fallbackMessage :: "string \<Rightarrow> response \<Rightarrow> string" where
  "fallbackMessage what r =
     ''Failed to fetch '' @ what @ '': '' @ digits (status r) @ '' '' @ statusText r"

definition errorMessage :: "platform \<Rightarrow> string \<Rightarrow> response \<Rightarrow> string" where
  "errorMessage pf what r =
     (let errorText = body_text r;
          fallback = fallbackMessage what r;
          caught = (if errorText \<noteq> [] then fallback @ '' - '' @ errorText else fallback)
      in case JSON_parse pf errorText of
           Inl _ \<Rightarrow> caught
         | Inr errorJson \<Rightarrow>
             (case get_prop errorJson ''message'' of
                Inl _ \<Rightarrow> caught
              | Inr m \<Rightarrow>
                  if truthy m then ToString m
                  else (case get_prop errorJson ''error'' of
                          Inl _ \<Rightarrow> caught
                        | Inr e \<Rightarrow> if truthy e then ToString e else fallback)))"

text \<open>The outer \<^verbatim>\<open>catch (error)\<close>: a TypeError whose message contains \<^verbatim>\<open>fetch\<close> is
  replaced by the network error, anything else is thrown again as it is.\<close>

definition on_catch :: "js_error \<Rightarrow> js_error" where
  "on_catch e =
     (case e of
        TypeError m \<Rightarrow> if str_includes m ''fetch'' then Error NETWORK_ERROR else e
      | _ \<Rightarrow> e)"

text \<open>
  The \<^verbatim>\<open>try { ... } catch\<close> block that \<^verbatim>\<open>getData\<close>, \<^verbatim>\<open>getVaultInfo\<close> and
  \<^verbatim>\<open>getFactoryAddress\<close> each contain, for the URL and the description they use. The
  promise of \<^verbatim>\<open>response.json()\<close> is returned without \<^verbatim>\<open>await\<close>, so its rejection
  does not pass through the catch block.
\<close>

definition try_fetch ::
  "platform \<Rightarrow> string \<Rightarrow> string \<Rightarrow> string \<Rightarrow> request list \<Rightarrow> (js_error + jsval) \<times> request list" where
  "try_fetch pf key u what reqs =
     (let (res, reqs') = fetch pf \<lparr>url = u, http_method = ''GET'', authorization = ''Bearer '' @ key\<rparr> reqs
      in case res of
           Rejected e \<Rightarrow> (Inl (on_catch e), reqs')
         | Resolved r \<Rightarrow>
             if \<not> ok r then (Inl (on_catch (Error (errorMessage pf what r))), reqs')
             else (case JSON_parse pf (body_text r) of
                     Inl m \<Rightarrow> (Inl (SyntaxError m), reqs')
                   | Inr v \<Rightarrow> (Inr v, reqs')))"

text \<open>\<^verbatim>\<open>new URLSearchParams(params).toString()\<close>: the form-urlencoded serialisation, over
  the bytes of the strings.\<close>

definition hex_char :: "nat \<Rightarrow> char" where
  "hex_char d = ''0123456789ABCDEF'' ! d"

definition form_unreserved :: "char \<Rightarrow> bool" where
  "form_unreserved c =
     (let n = (of_char c :: nat)
      in (48 \<le> n \<and> n \<le> 57) \<or> (65 \<le> n \<and> n \<le> 90) \<or> (97 \<le> n \<and> n \<le> 122)
         \<or> c \<in> set ''*-._'')"

definition form_encode_char :: "char \<Rightarrow> string" where
  "form_encode_char c =
     (if form_unreserved c then [c]
      else if c = CHR '' '' then ''+''
      else [CHR ''%'', hex_char ((of_char c :: nat) div 16), hex_char ((of_char c :: nat) mod 16)])"

definition form_encode :: "string \<Rightarrow> string" where
  "form_encode s = concat (map form_encode_char s)"

definition URLSearchParams_toString :: "(string \<times> string) list \<Rightarrow> string" where
  "URLSearchParams_toString params =
     join_with ''&'' (map (\<lambda>(k, v). form_encode k @ ''='' @ form_encode v) params)"

definition getData ::
  "platform \<Rightarrow> string option \<Rightarrow> string \<Rightarrow> string \<Rightarrow> (string \<times> string) list \<Rightarrow> request list
     \<Rightarrow> (js_error + jsval) \<times> request list" where
  "getData pf API_KEY endpoint vaultAddress params reqs =
     (if key_absent API_KEY then (Inl (Error KEY_NOT_SET), reqs)
      else
        let u = (if length params > 0
                 then API_BASE_URL @ ''/vault/'' @ vaultAddress @ ''/'' @ endpoint @ ''?''
                        @ URLSearchParams_toString params
                 else API_BASE_URL @ ''/vault/'' @ vaultAddress @ ''/'' @ endpoint)
        in try_fetch pf (the API_KEY) u endpoint reqs)"

definition getVaultInfo ::
  "platform \<Rightarrow> string option \<Rightarrow> string \<Rightarrow> string \<Rightarrow> request list
     \<Rightarrow> (js_error + jsval) \<times> request list" where
  "getVaultInfo pf API_KEY vaultAddress network reqs =
     (if key_absent API_KEY then (Inl (Error KEY_NOT_SET), reqs)
      else try_fetch pf (the API_KEY)
             (API_BASE_URL @ ''/vault/'' @ vaultAddress @ ''?network='' @ network)
             ''vault info'' reqs)"

definition getVaultAPY ::
  "platform \<Rightarrow> string option \<Rightarrow> string \<Rightarrow> string \<Rightarrow> request list
     \<Rightarrow> (js_error + jsval) \<times> request list" where
  "getVaultAPY pf API_KEY vaultAddress network reqs =
     getData pf API_KEY ''apy'' vaultAddress [(''network'', network)] reqs"

text \<open>\<^verbatim>\<open>startDate\<close> and \<^verbatim>\<open>endDate\<close> default to \<^verbatim>\<open>null\<close> (\<open>None\<close>); \<^verbatim>\<open>if (startDate)\<close>
  holds for a string that is not empty.\<close>

definition getVaultHistory ::
  "platform \<Rightarrow> string option \<Rightarrow> string \<Rightarrow> string \<Rightarrow> string \<Rightarrow> string
     \<Rightarrow> string option \<Rightarrow> string option \<Rightarrow> request list
     \<Rightarrow> (js_error + jsval) \<times> request list" where
  "getVaultHistory pf API_KEY vaultAddress network period interval startDate endDate reqs =
     (let params = [(''network'', network), (''period'', period), (''interval'', interval)];
          params = (case startDate of
                      Some d \<Rightarrow> if d \<noteq> [] then params @ [(''startDate'', d)] else params
                    | None \<Rightarrow> params);
          params = (case endDate of
                      Some d \<Rightarrow> if d \<noteq> [] then params @ [(''endDate'', d)] else params
                    | None \<Rightarrow> params)
      in getData pf API_KEY ''history'' vaultAddress params reqs)"

definition getVaultReport ::
  "platform \<Rightarrow> string option \<Rightarrow> string \<Rightarrow> string \<Rightarrow> request list
     \<Rightarrow> (js_error + jsval) \<times> request list" where
  "getVaultReport pf API_KEY vaultAddress network reqs =
     getData pf API_KEY ''report'' vaultAddress [(''network'', network)] reqs"

definition getVaultBalance ::
  "platform \<Rightarrow> string option \<Rightarrow> string \<Rightarrow> string \<Rightarrow> string \<Rightarrow> request list
     \<Rightarrow> (js_error + jsval) \<times> request list" where
  "getVaultBalance pf API_KEY vaultAddress userAddress network reqs =
     getData pf API_KEY ''balance'' vaultAddress [(''from'', userAddress), (''network'', network)] reqs"

definition getFactoryAddress ::
  "platform \<Rightarrow> string option \<Rightarrow> string \<Rightarrow> request list
     \<Rightarrow> (js_error + jsval) \<times> request list" where
  "getFactoryAddress pf API_KEY network reqs =
     (if key_absent API_KEY then (Inl (Error KEY_NOT_SET), reqs)
      else try_fetch pf (the API_KEY)
             (API_BASE_URL @ ''/factory/address?network='' @ network)
             ''factory address'' reqs)"



text \<open>Platforms for concrete runs: every request fails in transport, with the message
  Safari gives (\<open>offline\<close>) or the one Chrome gives (\<open>chrome_offline\<close>); every request is
  answered with a 404 carrying the JSON error envelope (\<open>not_found\<close>); every request is
  answered with a 500 whose envelope has an empty \<^verbatim>\<open>message\<close> (\<open>falsy_message\<close>).\<close>

definition offline :: platform where
  "offline = \<lparr>net = (\<lambda>_ _. Rejected (TypeError ''Load failed'')),
              JSON_parse = (\<lambda>_. Inl ''Unexpected end of JSON input'')\<rparr>"

definition chrome_offline :: platform where
  "chrome_offline = \<lparr>net = (\<lambda>_ _. Rejected (TypeError ''Failed to fetch'')),
                     JSON_parse = (\<lambda>_. Inl ''Unexpected end of JSON input'')\<rparr>"





section \<open>The dashboard component (\<^verbatim>\<open>src/components/VaultDashboard.jsx\<close>)\<close>

text \<open>
  The state of the component is the tuple of its \<^verbatim>\<open>useState\<close> cells. \<^verbatim>\<open>vaultData\<close> is
  \<^verbatim>\<open>null\<close> (\<open>None\<close>) or the object that \<^verbatim>\<open>fetchVaultData\<close> builds; its \<^verbatim>\<open>errors\<close> hold a
  message or \<^verbatim>\<open>null\<close> (\<open>None\<close>) under each of the keys \<^verbatim>\<open>info\<close>, \<^verbatim>\<open>apy\<close> and
  \<^verbatim>\<open>history\<close>. A handler is modelled by the state it leaves once its promise has settled
  and the queued updates have been applied; handlers that overlap in time are not modelled.
\<close>

record vault_errors =
  info_error :: "string option"
  apy_error :: "string option"
  history_error :: "string option"

record vault_data =
  info :: jsval
  apy :: jsval
  history :: jsval
  errors :: vault_errors

record dashboard =
  vaultAddress :: string
  network :: string
  loading :: bool
  error :: "string option"
  vaultData :: "vault_data option"
  historyPeriod :: string
  historyInterval :: string

text \<open>\<^verbatim>\<open>String.prototype.trim\<close>, over the ASCII white space and line terminators.\<close>

definition is_space :: "char \<Rightarrow> bool" where
  "is_space c = (c \<in> set [CHR 0x09, CHR 0x0A, CHR 0x0B, CHR 0x0C, CHR 0x0D, CHR 0x20])"

definition trim :: "string \<Rightarrow> string" where
  "trim s = rev (dropWhile is_space (rev (dropWhile is_space s)))"














section \<open>Numbers and strings: \<^verbatim>\<open>parseFloat\<close>, \<^verbatim>\<open>ToNumber\<close>, \<^verbatim>\<open>toFixed\<close>\<close>

definition is_digit :: "char \<Rightarrow> bool" where
  "is_digit c = (c \<in> set ''0123456789'')"

definition digit_val :: "char \<Rightarrow> nat" where
  "digit_val c = of_char c - 48"

definition nat_of_digits :: "string \<Rightarrow> nat" where
  "nat_of_digits ds = foldl (\<lambda>n c. 10 * n + digit_val c) 0 ds"

fun js_neg :: "jsnum \<Rightarrow> jsnum" where
  "js_neg (Fin x) = Fin (- x)"
| "js_neg PInf = NInf"
| "js_neg NInf = PInf"
| "js_neg NaN = NaN"

text \<open>
  The longest prefix of a string that is a \<^verbatim>\<open>StrDecimalLiteral\<close>, as its value and the
  rest of the string: an optional sign, then \<^verbatim>\<open>Infinity\<close>, or digits with an optional
  fraction, or a fraction alone, each with an optional exponent part (taken only when it
  is complete). The value is the decimal rounded to binary64.
\<close>

definition parse_exponent :: "string \<Rightarrow> (int \<times> string) option" where
  "parse_exponent s =
     (case s of
        [] \<Rightarrow> None
      | e # r \<Rightarrow>
          if e = CHR ''e'' \<or> e = CHR ''E'' then
            (let (sgn, r1) = (case r of
                                [] \<Rightarrow> (1, r)
                              | c # r' \<Rightarrow> if c = CHR ''+'' then (1, r')
                                          else if c = CHR ''-'' then (- 1, r') else (1, r));
                 ds = takeWhile is_digit r1
             in if ds = [] then None
                else Some (sgn * int (nat_of_digits ds), dropWhile is_digit r1))
          else None)"

definition decimal_value :: "string \<Rightarrow> int \<Rightarrow> string \<Rightarrow> jsnum \<times> string" where
  "decimal_value ds scale r =
     (case parse_exponent r of
        Some (e, r') \<Rightarrow> (round_double (of_nat (nat_of_digits ds) * pow10 (scale + e)), r')
      | None \<Rightarrow> (round_double (of_nat (nat_of_digits ds) * pow10 scale), r))"

definition parse_unsigned :: "string \<Rightarrow> (jsnum \<times> string) option" where
  "parse_unsigned s =
     (if prefix ''Infinity'' s then Some (PInf, drop 8 s)
      else
        let ip = takeWhile is_digit s; r1 = dropWhile is_digit s
        in case r1 of
             [] \<Rightarrow> if ip = [] then None else Some (decimal_value ip 0 r1)
           | c # r2 \<Rightarrow>
               if c = CHR ''.'' then
                 (let fp = takeWhile is_digit r2; r3 = dropWhile is_digit r2
                  in if ip = [] \<and> fp = [] then None
                     else Some (decimal_value (ip @ fp) (- int (length fp)) r3))
               else if ip = [] then None else Some (decimal_value ip 0 r1))"

definition parse_decimal :: "string \<Rightarrow> (jsnum \<times> string) option" where
  "parse_decimal s =
     (case s of
        [] \<Rightarrow> None
      | c # r \<Rightarrow>
          if c = CHR ''+'' then parse_unsigned r
          else if c = CHR ''-'' then map_option (\<lambda>(v, r'). (js_neg v, r')) (parse_unsigned r)
          else parse_unsigned s)"

text \<open>\<^verbatim>\<open>parseFloat\<close> of a string skips leading white space and reads the longest literal
  prefix; of another value, it reads the string the value converts to.\<close>

definition parseFloat_str :: "string \<Rightarrow> jsnum" where
  "parseFloat_str s =
     (case parse_decimal (dropWhile is_space s) of Some (v, _) \<Rightarrow> v | None \<Rightarrow> NaN)"


text \<open>\<^verbatim>\<open>ToNumber\<close>. A string must be a numeric literal as a whole, white space trimmed:
  empty gives 0, and \<^verbatim>\<open>0x\<close>, \<^verbatim>\<open>0o\<close>, \<^verbatim>\<open>0b\<close> introduce integers in base 16, 8, 2.\<close>

definition radix_digit :: "char \<Rightarrow> nat option" where
  "radix_digit c =
     (let n = (of_char c :: nat)
      in if 48 \<le> n \<and> n \<le> 57 then Some (n - 48)
         else if 97 \<le> n \<and> n \<le> 102 then Some (n - 87)
         else if 65 \<le> n \<and> n \<le> 70 then Some (n - 55)
         else None)"

definition radix_literal :: "nat \<Rightarrow> string \<Rightarrow> jsnum" where
  "radix_literal b ds =
     (if ds \<noteq> [] \<and> list_all (\<lambda>c. case radix_digit c of Some d \<Rightarrow> d < b | None \<Rightarrow> False) ds
      then round_double (of_nat (foldl (\<lambda>n c. b * n + the (radix_digit c)) 0 ds))
      else NaN)"

definition StringToNumber :: "string \<Rightarrow> jsnum" where
  "StringToNumber s =
     (let t = trim s
      in if t = [] then Fin 0
         else if prefix ''0x'' t \<or> prefix ''0X'' t then radix_literal 16 (drop 2 t)
         else if prefix ''0o'' t \<or> prefix ''0O'' t then radix_literal 8 (drop 2 t)
         else if prefix ''0b'' t \<or> prefix ''0B'' t then radix_literal 2 (drop 2 t)
         else (case parse_decimal t of
                 Some (v, r) \<Rightarrow> if r = [] then v else NaN
               | None \<Rightarrow> NaN))"

fun ToNumber :: "jsval \<Rightarrow> jsnum" where
  "ToNumber Undefined = NaN"
| "ToNumber Null = Fin 0"
| "ToNumber (Bool b) = (if b then Fin 1 else Fin 0)"
| "ToNumber (Num x) = x"
| "ToNumber (Str s) = StringToNumber s"
| "ToNumber v = StringToNumber (ToString v)"

text \<open>The global \<^verbatim>\<open>isNaN(v)\<close>.\<close>

definition isNaN :: "jsval \<Rightarrow> bool" where
  "isNaN v = num_isNaN (ToNumber v)"

text \<open>
  \<^verbatim>\<open>x.toFixed(f)\<close>: a value that is not finite, or whose magnitude is at least \<open>10^21\<close>,
  prints as \<^verbatim>\<open>Number::toString\<close> does; any other prints the integer \<open>n\<close> nearest to
  \<open>|x| * 10^f\<close> (the larger one of two) with a point before its last \<open>f\<close> digits, padded with
  zeros on the left to \<open>f + 1\<close> digits.
\<close>

definition pad_split :: "nat \<Rightarrow> string \<Rightarrow> string" where
  "pad_split f m =
     (let m = (if length m \<le> f then replicate (f + 1 - length m) (CHR ''0'') @ m else m);
          k = length m
      in take (k - f) m @ ''.'' @ drop (k - f) m)"

definition toFixed :: "nat \<Rightarrow> jsnum \<Rightarrow> string" where
  "toFixed f v =
     (case v of
        Fin x \<Rightarrow>
          (let s = (if x < 0 then ''-'' else []); a = \<bar>x\<bar>
           in if 10 ^ 21 \<le> a then s @ Number_toString (Fin a)
              else
                let n = nat \<lfloor>a * 10 ^ f + 1 / 2\<rfloor>; m = digits n
                in if f \<noteq> 0 then s @ pad_split f m else s @ m)
      | _ \<Rightarrow> Number_toString v)"

section \<open>The formatters (\<^verbatim>\<open>src/utils/formatters.js\<close>)\<close>

text \<open>
  The regular expressions of the formatters, each as the function its \<^verbatim>\<open>replace\<close> computes.
  \<^verbatim>\<open>s.replace(/\.?0+$/, '')\<close> removes the leftmost suffix that is an optional point
  followed by one or more zeros; \<^verbatim>\<open>s.replace(/\.0$/, '')\<close> removes a final \<^verbatim>\<open>.0\<close>.
\<close>

definition all_zeros :: "string \<Rightarrow> bool" where
  "all_zeros t = (t \<noteq> [] \<and> list_all (\<lambda>c. c = CHR ''0'') t)"

definition dot_zeros_at_end :: "string \<Rightarrow> bool" where
  "dot_zeros_at_end t = (case t of [] \<Rightarrow> False | c # u \<Rightarrow> if c = CHR ''.'' then all_zeros u else all_zeros t)"

fun strip_dot_zeros :: "string \<Rightarrow> string" where
  "strip_dot_zeros [] = []"
| "strip_dot_zeros (c # cs) = (if dot_zeros_at_end (c # cs) then [] else c # strip_dot_zeros cs)"

fun strip_dot_zero :: "string \<Rightarrow> string" where
  "strip_dot_zero [] = []"
| "strip_dot_zero (c # cs) = (if c # cs = ''.0'' then [] else c # strip_dot_zero cs)"

text \<open>
  \<^verbatim>\<open>s.replace(/\B(?=(\d{3})+(?!\d))/g, ',')\<close> inserts a comma at every position that is not
  a word boundary and is followed by a run of digits whose length is a positive multiple
  of three. \<open>w\<close> tells whether the character before the position is a word character.
\<close>

definition is_word :: "char \<Rightarrow> bool" where
  "is_word c =
     (let n = (of_char c :: nat)
      in (48 \<le> n \<and> n \<le> 57) \<or> (65 \<le> n \<and> n \<le> 90) \<or> (97 \<le> n \<and> n \<le> 122) \<or> c = CHR ''_'')"

definition triples_ahead :: "string \<Rightarrow> bool" where
  "triples_ahead t = (let r = length (takeWhile is_digit t) in 0 < r \<and> r mod 3 = 0)"

fun commas_from :: "bool \<Rightarrow> string \<Rightarrow> string" where
  "commas_from w [] = []"
| "commas_from w (c # cs) =
     (if w = is_word c \<and> triples_ahead (c # cs) then '','' else [])
       @ c # commas_from (is_word c) cs"

definition add_commas :: "string \<Rightarrow> string" where
  "add_commas s = commas_from False s"

text \<open>\<^verbatim>\<open>s.split('.')\<close>.\<close>

fun split_dot :: "string \<Rightarrow> string list" where
  "split_dot [] = [[]]"
| "split_dot (c # cs) =
     (case split_dot cs of
        [] \<Rightarrow> [[c]]
      | p # ps \<Rightarrow> if c = CHR ''.'' then [] # p # ps else (c # p) # ps)"

text \<open>\<^verbatim>\<open>convertFromStroops\<close>. The division converts a value that is not a number with
  \<^verbatim>\<open>ToNumber\<close>, as \<^verbatim>\<open>isNaN\<close> does.\<close>

definition numAmount_of :: "jsval \<Rightarrow> jsval" where
  "numAmount_of amount = (case amount of Str s \<Rightarrow> Num (parseFloat_str s) | _ \<Rightarrow> amount)"

definition convertFromStroops :: "jsval \<Rightarrow> jsnum" where
  "convertFromStroops amount =
     (if amount = Null \<or> amount = Undefined \<or> amount = Str [] then Fin 0
      else
        let numAmount = numAmount_of amount
        in if isNaN numAmount then Fin 0
           else js_div (ToNumber numAmount) (Fin 10000000))"

text \<open>\<^verbatim>\<open>formatNumber\<close> takes a number (its callers pass nothing else on the paths
  modelled here).\<close>

definition formatNumber :: "jsnum \<Rightarrow> string" where
  "formatNumber v = (if v = Fin 0 then ''0'' else strip_dot_zeros (toFixed 2 v))"

text \<open>The last five lines of \<^verbatim>\<open>formatAmountWithCommasDecimal\<close> and of
  \<^verbatim>\<open>formatAmountWithCommas\<close>: split at the points, put commas into the first part, join
  again if there is a second part that is not empty.\<close>

definition with_commas :: "string \<Rightarrow> string" where
  "with_commas formatted =
     (case split_dot formatted of
        [] \<Rightarrow> []
      | p0 # ps \<Rightarrow>
          if length (p0 # ps) > 1 \<and> ps ! 0 \<noteq> [] then join_with ''.'' (add_commas p0 # ps)
          else add_commas p0)"


definition formatAmountWithCommas :: "jsval \<Rightarrow> string" where
  "formatAmountWithCommas amount =
     (let actualAmount = convertFromStroops amount
      in if actualAmount = Fin 0 then ''0'' else with_commas (formatNumber actualAmount))"

definition formatCompactNumber :: "jsval \<Rightarrow> string" where
  "formatCompactNumber v =
     (if v = Null \<or> v = Undefined \<or> isNaN v \<or> v = Num (Fin 0) then ''0''
      else
        let absValue = Math_abs (ToNumber v);
            sign = (if js_less (ToNumber v) (Fin 0) then ''-'' else [])
        in if js_ge absValue (Fin 1000000000) then
             sign @ strip_dot_zero (toFixed 1 (js_div absValue (Fin 1000000000))) @ ''B''
           else if js_ge absValue (Fin 1000000) then
             sign @ strip_dot_zero (toFixed 1 (js_div absValue (Fin 1000000))) @ ''M''
           else if js_ge absValue (Fin 1000) then
             (let divided = js_div absValue (Fin 1000)
              in if js_mod1 divided = Fin 0 then sign @ toFixed 0 divided @ ''K''
                 else sign @ strip_dot_zero (toFixed 1 divided) @ ''K'')
           else sign @ formatNumber absValue)"

definition formatAmountCompact :: "jsval \<Rightarrow> string" where
  "formatAmountCompact amount = formatCompactNumber (Num (convertFromStroops amount))"

section \<open>Chart data (\<^verbatim>\<open>prepareChartData\<close> in \<^verbatim>\<open>VaultDashboard.jsx\<close>)\<close>











section \<open>The renderings the specification describes\<close>

text \<open>
  \<open>decimal_text v\<close>: \<open>v\<close> with at most two fractional digits, trailing zeros stripped. The
  magnitude is rounded to hundredths (a half rounds up); the integer part is printed in
  full, then a point and the fractional digits up to the last one that is not zero.
\<close>

definition hundredths :: "rat \<Rightarrow> nat" where
  "hundredths v = nat \<lfloor>\<bar>v\<bar> * 100 + 1 / 2\<rfloor>"

definition fraction_text :: "nat \<Rightarrow> string" where
  "fraction_text r =
     (if r = 0 then []
      else if r mod 10 = 0 then [CHR ''.'', digit_char (r div 10)]
      else [CHR ''.'', digit_char (r div 10), digit_char (r mod 10)])"

definition sign_text :: "rat \<Rightarrow> string" where
  "sign_text v = (if v < 0 then ''-'' else [])"

definition decimal_text :: "rat \<Rightarrow> string" where
  "decimal_text v =
     sign_text v @ digits (hundredths v div 100) @ fraction_text (hundredths v mod 100)"




text \<open>\<open>one_decimal_text d\<close>: \<open>d \<ge> 0\<close> with one fractional digit, a trailing \<^verbatim>\<open>.0\<close>
  stripped.\<close>

definition tenths :: "rat \<Rightarrow> nat" where
  "tenths d = nat \<lfloor>d * 10 + 1 / 2\<rfloor>"

definition one_decimal_text :: "rat \<Rightarrow> string" where
  "one_decimal_text d =
     digits (tenths d div 10)
       @ (if tenths d mod 10 = 0 then [] else [CHR ''.'', digit_char (tenths d mod 10)])"


section \<open>Properties of the API client\<close>

lemma try_fetch_reqs:
  "snd (try_fetch pf k u what reqs) =
     reqs @ [\<lparr>url = u, http_method = ''GET'', authorization = ''Bearer '' @ k\<rparr>]"
  by (simp add: try_fetch_def fetch_def split: fetch_result.splits sum.splits)

lemma getData_absent:
  "key_absent K \<Longrightarrow> getData pf K e a ps reqs = (Inl (Error KEY_NOT_SET), reqs)"
  by (simp add: getData_def)

lemma getData_present:
  "\<not> key_absent K \<Longrightarrow> \<exists>q. snd (getData pf K e a ps reqs) = reqs @ [q]"
  by (simp add: getData_def try_fetch_reqs Let_def)

text \<open>
  C2. Each of the six operations, called while the credential is absent (\<^verbatim>\<open>!API_KEY\<close>),
  throws the configuration error and leaves the list of issued requests as it was; called
  with the credential present, it appends exactly one request to that list, whatever the
  outcome of the request.
\<close>

theorem credential_gate:
  "(key_absent API_KEY \<longrightarrow>
      getVaultInfo pf API_KEY a n reqs = (Inl (Error KEY_NOT_SET), reqs)
    \<and> getVaultAPY pf API_KEY a n reqs = (Inl (Error KEY_NOT_SET), reqs)
    \<and> getVaultHistory pf API_KEY a n p i sd ed reqs = (Inl (Error KEY_NOT_SET), reqs)
    \<and> getVaultReport pf API_KEY a n reqs = (Inl (Error KEY_NOT_SET), reqs)
    \<and> getVaultBalance pf API_KEY a u n reqs = (Inl (Error KEY_NOT_SET), reqs)
    \<and> getFactoryAddress pf API_KEY n reqs = (Inl (Error KEY_NOT_SET), reqs))
 \<and> (\<not> key_absent API_KEY \<longrightarrow>
      (\<exists>q. snd (getVaultInfo pf API_KEY a n reqs) = reqs @ [q])
    \<and> (\<exists>q. snd (getVaultAPY pf API_KEY a n reqs) = reqs @ [q])
    \<and> (\<exists>q. snd (getVaultHistory pf API_KEY a n p i sd ed reqs) = reqs @ [q])
    \<and> (\<exists>q. snd (getVaultReport pf API_KEY a n reqs) = reqs @ [q])
    \<and> (\<exists>q. snd (getVaultBalance pf API_KEY a u n reqs) = reqs @ [q])
    \<and> (\<exists>q. snd (getFactoryAddress pf API_KEY n reqs) = reqs @ [q]))"
  by (auto simp: getVaultInfo_def getVaultAPY_def getVaultHistory_def getVaultReport_def
      getVaultBalance_def getFactoryAddress_def getData_absent getData_present
      try_fetch_reqs Let_def)

theorem credential_gate_witness:
  "key_absent None
   \<and> getVaultHistory offline None ''CVAULT'' ''mainnet'' ''30d'' ''daily'' None None []
       = (Inl (Error KEY_NOT_SET), [])
   \<and> \<not> key_absent (Some ''secret'')
   \<and> (\<exists>q. snd (getVaultHistory offline (Some ''secret'') ''CVAULT'' ''mainnet'' ''30d'' ''daily''
                  None None []) = [q])"
  using credential_gate [of None offline "''CVAULT''" "''mainnet''" "[]" "''30d''" "''daily''" None None]
    credential_gate [of "Some ''secret''" offline "''CVAULT''" "''mainnet''" "[]" "''30d''" "''daily''" None None]
  by (simp add: key_absent_def)


lemma on_catch_Error [simp]: "on_catch (Error m) = Error m"
  by (simp add: on_catch_def)


lemma try_fetch_rejected:
  "net pf (length reqs) \<lparr>url = u, http_method = ''GET'', authorization = ''Bearer '' @ k\<rparr> = Rejected e
   \<Longrightarrow> fst (try_fetch pf k u what reqs) = Inl (on_catch e)"
  by (simp add: try_fetch_def fetch_def)




text \<open>
  C9 (as amended). When \<^verbatim>\<open>fetch\<close> rejects with a TypeError, each operation throws the
  network error if the message of the TypeError contains \<^verbatim>\<open>fetch\<close>, and throws the
  TypeError itself if it does not.
\<close>

theorem transport_failure:
  assumes "\<not> key_absent API_KEY" and "\<forall>q. net pf (length reqs) q = Rejected (TypeError m)"
  shows "(str_includes m ''fetch'' \<longrightarrow>
            fst (getVaultInfo pf API_KEY a n reqs) = Inl (Error NETWORK_ERROR)
          \<and> fst (getVaultAPY pf API_KEY a n reqs) = Inl (Error NETWORK_ERROR)
          \<and> fst (getVaultHistory pf API_KEY a n p i sd ed reqs) = Inl (Error NETWORK_ERROR)
          \<and> fst (getVaultReport pf API_KEY a n reqs) = Inl (Error NETWORK_ERROR)
          \<and> fst (getVaultBalance pf API_KEY a u n reqs) = Inl (Error NETWORK_ERROR)
          \<and> fst (getFactoryAddress pf API_KEY n reqs) = Inl (Error NETWORK_ERROR))
       \<and> (\<not> str_includes m ''fetch'' \<longrightarrow>
            fst (getVaultInfo pf API_KEY a n reqs) = Inl (TypeError m)
          \<and> fst (getVaultAPY pf API_KEY a n reqs) = Inl (TypeError m)
          \<and> fst (getVaultHistory pf API_KEY a n p i sd ed reqs) = Inl (TypeError m)
          \<and> fst (getVaultReport pf API_KEY a n reqs) = Inl (TypeError m)
          \<and> fst (getVaultBalance pf API_KEY a u n reqs) = Inl (TypeError m)
          \<and> fst (getFactoryAddress pf API_KEY n reqs) = Inl (TypeError m))"
  using assms
  by (simp add: getVaultInfo_def getVaultAPY_def getVaultHistory_def getVaultReport_def
      getVaultBalance_def getFactoryAddress_def getData_def try_fetch_rejected Let_def on_catch_def
      split: option.splits)

theorem transport_failure_witness:
  "\<not> key_absent (Some ''secret'') \<and> str_includes ''Failed to fetch'' ''fetch''
   \<and> fst (getVaultInfo chrome_offline (Some ''secret'') ''CVAULT'' ''mainnet'' []) = Inl (Error NETWORK_ERROR)
   \<and> \<not> str_includes ''Load failed'' ''fetch''
   \<and> fst (getVaultInfo offline (Some ''secret'') ''CVAULT'' ''mainnet'' []) = Inl (TypeError ''Load failed'')"
  using transport_failure [of "Some ''secret''" chrome_offline "[]" "''Failed to fetch''"
      "''CVAULT''" "''mainnet''" "''30d''" "''daily''" None None "''U''"]
    transport_failure [of "Some ''secret''" offline "[]" "''Load failed''"
      "''CVAULT''" "''mainnet''" "''30d''" "''daily''" None None "''U''"]
  by (simp add: key_absent_def chrome_offline_def offline_def)

text \<open>
  C9 as stated fails for a transport failure whose message does not contain \<^verbatim>\<open>fetch\<close>:
  Safari rejects with \<^verbatim>\<open>TypeError: Load failed\<close>, and the operation throws that very
  TypeError.
\<close>

theorem raw_transport_exception_counterexample:
  "fst (getVaultAPY offline (Some ''secret'') ''CVAULT'' ''mainnet'' []) = Inl (TypeError ''Load failed'')
   \<and> Inl (TypeError ''Load failed'') \<noteq> (Inl (Error NETWORK_ERROR) :: js_error + jsval)"
  by (simp add: getVaultAPY_def getData_def key_absent_def try_fetch_def fetch_def offline_def
      on_catch_def Let_def)

section \<open>Properties of the dashboard component\<close>








section \<open>Properties of the chart data and of the formatters\<close>








subsection \<open>Decimal digits\<close>

lemma digits_small: "n < 10 \<Longrightarrow> digits n = [digit_char n]"
  by (simp add: digits.simps)

lemma digits_large: "10 \<le> n \<Longrightarrow> digits n = digits (n div 10) @ [digit_char (n mod 10)]"
  by (subst digits.simps) simp

lemma digit_char_is_digit: "d < 10 \<Longrightarrow> is_digit (digit_char d)"
proof -
  assume "d < 10"
  then have "d \<in> {0, 1, 2, 3, 4, 5, 6, 7, 8, 9}" by auto
  then show ?thesis by (auto simp: is_digit_def digit_char_def)
qed

lemma digit_char_zero_iff: "d < 10 \<Longrightarrow> digit_char d = CHR ''0'' \<longleftrightarrow> d = 0"
proof -
  assume "d < 10"
  then have "d \<in> {0, 1, 2, 3, 4, 5, 6, 7, 8, 9}" by auto
  then show ?thesis by (auto simp: digit_char_def)
qed

lemma is_digit_not_dot: "is_digit c \<Longrightarrow> c \<noteq> CHR ''.''"
  by (auto simp: is_digit_def)


lemma digits_all_digits: "list_all is_digit (digits n)"
proof (induction n rule: digits.induct)
  case (1 n)
  show ?case
  proof (cases "n < 10")
    case True
    then show ?thesis by (simp add: digits_small digit_char_is_digit)
  next
    case False
    with 1 show ?thesis by (simp add: digits_large digit_char_is_digit)
  qed
qed

lemma digits_not_empty: "digits n \<noteq> []"
  by (cases "n < 10") (simp_all add: digits_small digits_large)

lemma digits_no_dot: "CHR ''.'' \<notin> set (digits n)"
  using digits_all_digits [of n] is_digit_not_dot by (auto simp: list_all_iff)

lemma length_digits_small: "length (digits n) = 1 \<longleftrightarrow> n < 10"
proof (cases "n < 10")
  case True
  then show ?thesis by (simp add: digits_small)
next
  case False
  then have "length (digits n) = length (digits (n div 10)) + 1"
    by (simp add: digits_large)
  moreover have "length (digits (n div 10)) \<noteq> 0"
    using digits_not_empty by simp
  ultimately show ?thesis using False by simp
qed

subsection \<open>\<^verbatim>\<open>toFixed\<close> below \<open>10^21\<close>\<close>

lemma div_10_10: "n div 10 div 10 = n div 100" for n :: nat
  by (simp add: div_mult2_eq [symmetric])

lemma mod_100_div_10: "n mod 100 div 10 = n div 10 mod 10" for n :: nat
proof -
  have "n mod (10 * 10) = 10 * (n div 10 mod 10) + n mod 10"
    by (rule mod_mult2_eq)
  then have "n mod 100 = 10 * (n div 10 mod 10) + n mod 10"
    by simp
  then show ?thesis
    by simp
qed

lemma mod_100_mod_10: "n mod 100 mod 10 = n mod 10" for n :: nat
  by (simp add: mod_mod_cancel)

lemma pad_split_two:
  "pad_split 2 (digits n)
   = digits (n div 100) @ [CHR ''.'', digit_char (n mod 100 div 10), digit_char (n mod 10)]"
proof -
  consider "n < 10" | "10 \<le> n" "n < 100" | "100 \<le> n" by linarith
  then show ?thesis
  proof cases
    case 1
    then show ?thesis
      by (simp add: pad_split_def digits_small Let_def digit_char_def numeral_2_eq_2)
  next
    case 2
    then have d: "digits n = [digit_char (n div 10), digit_char (n mod 10)]"
      by (simp add: digits_large digits_small)
    from 2 have "n div 100 = 0" "n mod 100 = n" by simp_all
    with d show ?thesis
      by (simp add: pad_split_def Let_def digits_small digit_char_def)
  next
    case 3
    then have a: "digits n = digits (n div 10) @ [digit_char (n mod 10)]"
      by (simp add: digits_large)
    from 3 have "10 \<le> n div 10" by simp
    then have b: "digits (n div 10) = digits (n div 10 div 10) @ [digit_char (n div 10 mod 10)]"
      by (rule digits_large)
    have l: "length (digits (n div 100)) \<noteq> 0"
      using digits_not_empty by simp
    show ?thesis
      using l by (simp add: pad_split_def a b div_10_10 mod_100_div_10 Let_def)
  qed
qed

lemma pad_split_one:
  "pad_split (Suc 0) (digits n) = digits (n div 10) @ [CHR ''.'', digit_char (n mod 10)]"
proof (cases "n < 10")
  case True
  then show ?thesis
    by (simp add: pad_split_def digits_small Let_def digit_char_def)
next
  case False
  then have a: "digits n = digits (n div 10) @ [digit_char (n mod 10)]"
    by (simp add: digits_large)
  have l: "length (digits (n div 10)) \<noteq> 0"
    using digits_not_empty by simp
  show ?thesis
    using l by (simp add: pad_split_def a Let_def)
qed

lemma toFixed_two:
  assumes "\<bar>v\<bar> < 10 ^ 21"
  shows "toFixed 2 (Fin v) = sign_text v @ digits (hundredths v div 100)
     @ [CHR ''.'', digit_char (hundredths v mod 100 div 10), digit_char (hundredths v mod 10)]"
proof -
  from assms have "\<not> 10 ^ 21 \<le> \<bar>v\<bar>" by simp
  then have "toFixed 2 (Fin v) = sign_text v @ pad_split 2 (digits (hundredths v))"
    unfolding toFixed_def hundredths_def sign_text_def Let_def by simp
  then show ?thesis
    by (simp only: pad_split_two append_assoc)
qed

lemma toFixed_one:
  assumes "0 \<le> d" and "d < 10 ^ 21"
  shows "toFixed 1 (Fin d) = digits (tenths d div 10) @ [CHR ''.'', digit_char (tenths d mod 10)]"
proof -
  from assms have "\<not> 10 ^ 21 \<le> \<bar>d\<bar>" "\<not> d < 0" "\<bar>d\<bar> = d" by simp_all
  then have "toFixed 1 (Fin d) = pad_split (Suc 0) (digits (tenths d))"
    unfolding toFixed_def tenths_def Let_def by simp
  then show ?thesis
    by (simp only: pad_split_one)
qed

lemma toFixed_zero_integer:
  assumes "0 \<le> d" and "d < 10 ^ 21" and "d = of_int \<lfloor>d\<rfloor>"
  shows "toFixed 0 (Fin d) = digits (nat \<lfloor>d\<rfloor>)"
proof -
  have "\<lfloor>of_int \<lfloor>d\<rfloor> + (1 / 2 :: rat)\<rfloor> = \<lfloor>d\<rfloor>"
    by (rule floor_unique) simp_all
  with assms(3) have f: "\<lfloor>d + 1 / 2\<rfloor> = \<lfloor>d\<rfloor>" by simp
  from assms have "\<not> 10 ^ 21 \<le> \<bar>d\<bar>" "\<not> d < 0" "\<bar>d\<bar> = d" by simp_all
  then show ?thesis
    unfolding toFixed_def Let_def by (simp add: f)
qed

subsection \<open>The replacements on a fixed-point numeral\<close>

lemma not_all_zeros_with_dot: "CHR ''.'' \<in> set t \<Longrightarrow> \<not> all_zeros t"
  by (auto simp: all_zeros_def list_all_iff)

lemma strip_dot_zeros_prefix:
  "CHR ''.'' \<notin> set p \<Longrightarrow> CHR ''.'' \<in> set t \<Longrightarrow> strip_dot_zeros (p @ t) = p @ strip_dot_zeros t"
proof (induction p)
  case Nil
  then show ?case by simp
next
  case (Cons c p)
  then have "\<not> all_zeros (c # p @ t)"
    by (intro not_all_zeros_with_dot) simp
  moreover from Cons.prems have "c \<noteq> CHR ''.''"
    by auto
  ultimately show ?case
    using Cons by (simp add: dot_zeros_at_end_def)
qed

lemma strip_dot_zeros_fraction:
  assumes "a < 10" and "b < 10"
  shows "strip_dot_zeros [CHR ''.'', digit_char a, digit_char b] = fraction_text (10 * a + b)"
proof -
  have da: "digit_char a \<noteq> CHR ''.''" and db: "digit_char b \<noteq> CHR ''.''"
    using assms digit_char_is_digit is_digit_not_dot by blast+
  have za: "digit_char a = CHR ''0'' \<longleftrightarrow> a = 0" and zb: "digit_char b = CHR ''0'' \<longleftrightarrow> b = 0"
    using assms by (simp_all add: digit_char_zero_iff)
  from assms have m: "(10 * a + b) mod 10 = b" "(10 * a + b) div 10 = a" "10 * a + b = 0 \<longleftrightarrow> a = 0 \<and> b = 0"
    by simp_all
  show ?thesis
    unfolding fraction_text_def m
    using da db za zb by (auto simp: dot_zeros_at_end_def all_zeros_def)
qed

lemma strip_dot_zeros_fixed:
  "strip_dot_zeros (sign_text v @ digits q @ [CHR ''.'', digit_char (r div 10), digit_char (r mod 10)])
     = sign_text v @ digits q @ fraction_text r" if "r < 100" for r :: nat
proof -
  let ?f = "[CHR ''.'', digit_char (r div 10), digit_char (r mod 10)]"
  have p: "CHR ''.'' \<notin> set (sign_text v @ digits q)"
    using digits_no_dot by (simp add: sign_text_def)
  have "strip_dot_zeros ((sign_text v @ digits q) @ ?f) = (sign_text v @ digits q) @ strip_dot_zeros ?f"
    by (rule strip_dot_zeros_prefix [OF p]) simp
  moreover have "strip_dot_zeros ?f = fraction_text (10 * (r div 10) + r mod 10)"
    using that by (intro strip_dot_zeros_fraction) simp_all
  ultimately show ?thesis
    by simp
qed

lemma formatNumber_decimal_text:
  assumes "\<bar>v\<bar> < 10 ^ 21"
  shows "formatNumber (Fin v) = decimal_text v"
proof (cases "v = 0")
  case True
  then show ?thesis
    by (simp add: formatNumber_def decimal_text_def sign_text_def hundredths_def
        fraction_text_def digits_small digit_char_def)
next
  case False
  let ?h = "hundredths v"
  have r: "?h mod 100 < 100" by simp
  have "formatNumber (Fin v) = strip_dot_zeros (toFixed 2 (Fin v))"
    using False by (simp add: formatNumber_def)
  also have "\<dots> = strip_dot_zeros (sign_text v @ digits (?h div 100)
      @ [CHR ''.'', digit_char (?h mod 100 div 10), digit_char (?h mod 100 mod 10)])"
    by (simp only: toFixed_two [OF assms] mod_100_mod_10)
  also have "\<dots> = sign_text v @ digits (?h div 100) @ fraction_text (?h mod 100)"
    by (rule strip_dot_zeros_fixed [OF r])
  finally show ?thesis
    by (simp add: decimal_text_def)
qed

lemma strip_dot_zero_prefix:
  "CHR ''.'' \<notin> set p \<Longrightarrow> strip_dot_zero (p @ t) = p @ strip_dot_zero t"
  by (induction p) auto

lemma strip_dot_zero_one_decimal:
  assumes "0 \<le> d" and "d < 10 ^ 21"
  shows "strip_dot_zero (toFixed 1 (Fin d)) = one_decimal_text d"
proof -
  let ?t = "tenths d"
  have b: "?t mod 10 < 10" by simp
  have db: "digit_char (?t mod 10) \<noteq> CHR ''.''"
    using b digit_char_is_digit is_digit_not_dot by blast
  have zb: "digit_char (?t mod 10) = CHR ''0'' \<longleftrightarrow> ?t mod 10 = 0"
    using b by (rule digit_char_zero_iff)
  have "strip_dot_zero (digits (?t div 10) @ [CHR ''.'', digit_char (?t mod 10)])
      = digits (?t div 10) @ strip_dot_zero [CHR ''.'', digit_char (?t mod 10)]"
    by (rule strip_dot_zero_prefix) (rule digits_no_dot)
  then have "strip_dot_zero (digits (?t div 10) @ [CHR ''.'', digit_char (?t mod 10)])
      = one_decimal_text d"
    using db zb by (auto simp: one_decimal_text_def)
  then show ?thesis
    by (simp only: toFixed_one [OF assms])
qed

subsection \<open>Thousands separators\<close>










subsection \<open>The number model\<close>

text \<open>The rounding, with the bound \<open>2 ^ 1024\<close> written out, for evaluation.\<close>

lemma round_double_code [code]:
  "round_double q = (if q = 0 then Fin 0
     else let r = round_mag \<bar>q\<bar>
          in if 179769313486231590772930519078902473361797697894230657273430081157732675805500963132708477322407536021120113879871393357658789768814416622492847430639474124377767893424865485276302219601246094119453082952085005768838150682342462881473913110540827237163350510684586298239947245938479716304835356329624224137216 \<le> r
             then (if q < 0 then NInf else PInf)
             else Fin (if q < 0 then - r else r))"
  by (simp add: round_double_def)

text \<open>The model on values whose results in a JavaScript engine are known: 0.1 prints as
  \<^verbatim>\<open>0.1\<close>, one ten-millionth as \<^verbatim>\<open>1e-7\<close> and \<open>10 ^ 21\<close> as \<^verbatim>\<open>1e+21\<close>;
  \<^verbatim>\<open>(1.005).toFixed(2)\<close> is \<^verbatim>\<open>1.00\<close> and \<^verbatim>\<open>(2.5).toFixed(0)\<close> is \<^verbatim>\<open>3\<close>;
  \<^verbatim>\<open>parseFloat\<close> reads a prefix where \<^verbatim>\<open>Number\<close> wants the whole string.\<close>

lemma known_roundings:
  "round_double (1 / 10) = Fin (3602879701896397 / 36028797018963968)"
  "round_double (3 / 2) = Fin (3 / 2)"
  by code_simp+

lemma known_printings:
  "Number_toString (round_double (1 / 10)) = ''0.1''"
  "Number_toString (Fin 1024) = ''1024''"
  "Number_toString (round_double (1 / 10000000)) = ''1e-7''"
  "Number_toString (Fin (10 ^ 21)) = ''1e+21''"
  "toFixed 2 (round_double (1005 / 1000)) = ''1.00''"
  "toFixed 0 (Fin (5 / 2)) = ''3''"
  by code_simp+

lemma known_readings:
  "parseFloat_str ''  12.5abc'' = Fin (25 / 2)"
  "parseFloat_str ''0x10'' = Fin 0"
  "StringToNumber ''0x10'' = Fin 16"
  "StringToNumber ''12px'' = NaN"
  "ToNumber (Arr [Num (Fin 5)]) = Fin 5"
  "ToNumber (Obj []) = NaN"
  by code_simp+

subsection \<open>Bounds on binary64 rounding\<close>

lemma pow2_powi: "pow2 e = 2 powi e"
  by (simp add: pow2_def power_int_def inverse_eq_divide power_one_over)

lemma pow2_pos: "0 < pow2 e"
  by (simp add: pow2_powi)

lemma pow2_add: "pow2 (a + b) = pow2 a * pow2 b"
  by (simp add: pow2_powi power_int_add)

lemma pow2_mono: "a \<le> b \<Longrightarrow> pow2 a \<le> pow2 b"
  by (simp add: pow2_powi power_int_increasing)

lemma ilog2_lower:
  assumes "0 < a"
  shows "pow2 (ilog2 a) \<le> a"
proof -
  obtain p d where pd: "quotient_of a = (p, d)"
    by (cases "quotient_of a")
  then have d: "0 < d" and a: "a = of_int p / of_int d"
    by (simp_all add: quotient_of_denom_pos quotient_of_div)
  from assms a d have p: "0 < p"
    by (simp add: zero_less_divide_iff)
  let ?e0 = "bitlen p - bitlen d"
  show ?thesis
  proof (cases "pow2 ?e0 \<le> a")
    case True
    then show ?thesis
      by (simp add: ilog2_def pd)
  next
    case False
    have bp: "0 < bitlen p"
      using bitlen_bounds [OF p] p by (cases "0 < bitlen p") auto
    have bd: "0 < bitlen d"
      using bitlen_bounds [OF d] d by (cases "0 < bitlen d") auto
    have lo: "2 ^ nat (bitlen p - 1) \<le> p" and hi: "d < 2 ^ nat (bitlen d)"
      using bitlen_bounds [OF p] bitlen_bounds [OF d] by simp_all
    have "pow2 (bitlen p - 1) = of_int (2 ^ nat (bitlen p - 1))"
      using bp by (simp add: pow2_def)
    also have "\<dots> \<le> of_int p"
      using lo by (simp only: of_int_le_iff)
    finally have 1: "pow2 (bitlen p - 1) \<le> of_int p" .
    from hi have "d \<le> 2 ^ nat (bitlen d)"
      by simp
    then have "(of_int d :: rat) \<le> of_int (2 ^ nat (bitlen d))"
      by (simp only: of_int_le_iff)
    also have "\<dots> = pow2 (bitlen d)"
      using bd by (simp add: pow2_def)
    finally have 2: "of_int d \<le> pow2 (bitlen d)" .
    have "pow2 (?e0 - 1) * of_int d \<le> pow2 (?e0 - 1) * pow2 (bitlen d)"
      using 2 pow2_pos [of "?e0 - 1"] by (simp add: mult_left_mono)
    also have "\<dots> = pow2 (bitlen p - 1)"
      by (simp add: pow2_add [symmetric])
    also note 1
    finally have "pow2 (?e0 - 1) \<le> of_int p / of_int d"
      using d by (simp add: pos_le_divide_eq)
    then have "pow2 (?e0 - 1) \<le> a"
      by (simp only: a)
    with False show ?thesis
      by (simp add: ilog2_def pd)
  qed
qed

lemma ilog2_upper:
  assumes "0 < a"
  shows "a < pow2 (ilog2 a + 1)"
proof -
  obtain p d where pd: "quotient_of a = (p, d)"
    by (cases "quotient_of a")
  then have d: "0 < d" and a: "a = of_int p / of_int d"
    by (simp_all add: quotient_of_denom_pos quotient_of_div)
  from assms a d have p: "0 < p"
    by (simp add: zero_less_divide_iff)
  let ?e0 = "bitlen p - bitlen d"
  show ?thesis
  proof (cases "pow2 ?e0 \<le> a")
    case False
    then show ?thesis
      by (simp add: ilog2_def pd)
  next
    case True
    have bp: "0 < bitlen p"
      using bitlen_bounds [OF p] p by (cases "0 < bitlen p") auto
    have bd: "0 < bitlen d"
      using bitlen_bounds [OF d] d by (cases "0 < bitlen d") auto
    have hi: "p < 2 ^ nat (bitlen p)" and lo: "2 ^ nat (bitlen d - 1) \<le> d"
      using bitlen_bounds [OF p] bitlen_bounds [OF d] by simp_all
    have "(of_int p :: rat) < of_int (2 ^ nat (bitlen p))"
      using hi by (simp only: of_int_less_iff)
    also have "\<dots> = pow2 (bitlen p)"
      using bp by (simp add: pow2_def)
    also have "\<dots> = pow2 (?e0 + 1) * pow2 (bitlen d - 1)"
      by (simp add: pow2_add [symmetric])
    also have "\<dots> \<le> pow2 (?e0 + 1) * of_int d"
    proof -
      have "pow2 (bitlen d - 1) = of_int (2 ^ nat (bitlen d - 1))"
        using bd by (simp add: pow2_def)
      also have "\<dots> \<le> of_int d"
        using lo by (simp only: of_int_le_iff)
      finally show ?thesis
        using pow2_pos [of "?e0 + 1"] by (simp add: mult_left_mono)
    qed
    finally have "of_int p / of_int d < pow2 (?e0 + 1)"
      using d by (simp add: pos_divide_less_eq)
    then have "a < pow2 (?e0 + 1)"
      by (simp only: a)
    with True show ?thesis
      by (simp add: ilog2_def pd)
  qed
qed

lemma ndigits_pos: "0 < n \<Longrightarrow> 0 < ndigits n"
proof (induction n rule: ndigits.induct)
  case (1 n)
  show ?case
  proof (cases "0 < n div 10")
    case True
    with 1 show ?thesis
      by (simp add: ndigits.simps [of n])
  next
    case False
    then have "ndigits (n div 10) = 0"
      by (simp add: ndigits.simps [of "n div 10"])
    with 1 show ?thesis
      by (simp add: ndigits.simps [of n])
  qed
qed

lemma ndigits_bounds:
  "0 < n \<Longrightarrow> 10 ^ nat (ndigits n - 1) \<le> n \<and> n < 10 ^ nat (ndigits n)"
proof (induction n rule: ndigits.induct)
  case (1 n)
  show ?case
  proof (cases "n < 10")
    case True
    with 1(2) have "n div 10 = 0" by simp
    then have "ndigits n = 1"
      using 1(2) by (simp add: ndigits.simps [of n] ndigits.simps [of 0])
    with True 1(2) show ?thesis by simp
  next
    case False
    then have m: "0 < n div 10" by simp
    from 1(2) have s: "ndigits n = ndigits (n div 10) + 1"
      by (simp add: ndigits.simps [of n])
    from 1(1) m 1(2) have ih: "10 ^ nat (ndigits (n div 10) - 1) \<le> n div 10"
      "n div 10 < 10 ^ nat (ndigits (n div 10))"
      by simp_all
    have q: "0 < ndigits (n div 10)"
      using m by (rule ndigits_pos)
    then have e: "nat (ndigits (n div 10)) = Suc (nat (ndigits (n div 10) - 1))"
      by simp
    have "10 ^ nat (ndigits n - 1) = 10 * 10 ^ nat (ndigits (n div 10) - 1)"
      by (simp add: s e)
    also have "\<dots> \<le> 10 * (n div 10)"
      using ih(1) by simp
    also have "\<dots> \<le> n"
      by simp
    finally have lo: "10 ^ nat (ndigits n - 1) \<le> n" .
    have "n < 10 * (n div 10 + 1)"
      by simp
    also have "\<dots> \<le> 10 * 10 ^ nat (ndigits (n div 10))"
      using ih(2) by simp
    also have "\<dots> = 10 ^ nat (ndigits n)"
      using q by (simp add: s nat_add_distrib)
    finally show ?thesis
      using lo by simp
  qed
qed

lemma pow10_powi: "pow10 e = 10 powi e"
  by (simp add: pow10_def power_int_def inverse_eq_divide power_one_over)

lemma pow10_pos: "0 < pow10 e"
  by (simp add: pow10_powi)

lemma pow10_add: "pow10 (a + b) = pow10 a * pow10 b"
  by (simp add: pow10_powi power_int_add)

lemma ilog10_bounds:
  assumes "0 < a"
  shows "pow10 (ilog10 a) \<le> a \<and> a < pow10 (ilog10 a + 1)"
proof -
  obtain p d where pd: "quotient_of a = (p, d)"
    by (cases "quotient_of a")
  then have d: "0 < d" and a: "a = of_int p / of_int d"
    by (simp_all add: quotient_of_denom_pos quotient_of_div)
  from assms a d have p: "0 < p"
    by (simp add: zero_less_divide_iff)
  let ?e0 = "ndigits p - ndigits d"
  have np: "0 < ndigits p" and nd: "0 < ndigits d"
    using p d by (simp_all add: ndigits_pos)
  have plo: "pow10 (ndigits p - 1) \<le> of_int p" and phi: "of_int p < pow10 (ndigits p)"
    and dlo: "pow10 (ndigits d - 1) \<le> of_int d" and dhi: "of_int d < pow10 (ndigits d)"
  proof -
    have "(of_int (10 ^ nat (ndigits p - 1)) :: rat) \<le> of_int p"
      using ndigits_bounds [OF p] by (simp only: of_int_le_iff)
    then show "pow10 (ndigits p - 1) \<le> of_int p"
      using np by (simp add: pow10_def)
    have "(of_int p :: rat) < of_int (10 ^ nat (ndigits p))"
      using ndigits_bounds [OF p] by (simp only: of_int_less_iff)
    then show "of_int p < pow10 (ndigits p)"
      using np by (simp add: pow10_def)
    have "(of_int (10 ^ nat (ndigits d - 1)) :: rat) \<le> of_int d"
      using ndigits_bounds [OF d] by (simp only: of_int_le_iff)
    then show "pow10 (ndigits d - 1) \<le> of_int d"
      using nd by (simp add: pow10_def)
    have "(of_int d :: rat) < of_int (10 ^ nat (ndigits d))"
      using ndigits_bounds [OF d] by (simp only: of_int_less_iff)
    then show "of_int d < pow10 (ndigits d)"
      using nd by (simp add: pow10_def)
  qed
  have lower: "pow10 (?e0 - 1) \<le> a"
  proof -
    have "pow10 (?e0 - 1) * of_int d \<le> pow10 (?e0 - 1) * pow10 (ndigits d)"
      using dhi pow10_pos [of "?e0 - 1"] by (simp add: mult_left_mono less_imp_le)
    also have "\<dots> = pow10 (ndigits p - 1)"
      by (simp add: pow10_add [symmetric])
    also note plo
    finally have "pow10 (?e0 - 1) \<le> of_int p / of_int d"
      using d by (simp add: pos_le_divide_eq)
    then show ?thesis
      by (simp only: a)
  qed
  have upper: "a < pow10 (?e0 + 1)"
  proof -
    note phi
    also have "pow10 (ndigits p) = pow10 (?e0 + 1) * pow10 (ndigits d - 1)"
      by (simp add: pow10_add [symmetric])
    also have "\<dots> \<le> pow10 (?e0 + 1) * of_int d"
      using dlo pow10_pos [of "?e0 + 1"] by (simp add: mult_left_mono)
    finally have "of_int p / of_int d < pow10 (?e0 + 1)"
      using d by (simp add: pos_divide_less_eq)
    then show ?thesis
      by (simp only: a)
  qed
  show ?thesis
  proof (cases "pow10 ?e0 \<le> a")
    case True
    with upper show ?thesis
      by (simp add: ilog10_def pd)
  next
    case False
    with lower show ?thesis
      by (simp add: ilog10_def pd)
  qed
qed

lemma round_half_even_upper: "of_int (round_half_even y) \<le> y + 1 / 2"
proof -
  define r where "r = y - of_int \<lfloor>y\<rfloor>"
  have y: "y = of_int \<lfloor>y\<rfloor> + r" and r: "0 \<le> r"
    by (simp_all add: r_def)
  have "round_half_even y = (if r < 1 / 2 then \<lfloor>y\<rfloor> else if 1 / 2 < r then \<lfloor>y\<rfloor> + 1
      else if even \<lfloor>y\<rfloor> then \<lfloor>y\<rfloor> else \<lfloor>y\<rfloor> + 1)"
    by (simp add: round_half_even_def Let_def r_def)
  moreover have "of_int \<lfloor>y\<rfloor> \<le> y + 1 / 2"
    using y r by linarith
  moreover have "of_int (\<lfloor>y\<rfloor> + 1) \<le> y + 1 / 2" if "\<not> r < 1 / 2"
    using y that by simp
  ultimately show ?thesis
    by auto
qed

lemma round_half_even_nonneg: "0 \<le> y \<Longrightarrow> 0 \<le> round_half_even y"
  by (auto simp: round_half_even_def Let_def intro: add_nonneg_nonneg)

lemma round_mag_nonneg: "0 < a \<Longrightarrow> 0 \<le> round_mag a"
  using pow2_pos round_half_even_nonneg
  by (simp add: round_mag_def Let_def less_imp_le)

lemma round_mag_upper:
  assumes "1 \<le> a"
  shows "round_mag a \<le> 2 * a"
proof -
  let ?e = "max (ilog2 a) (- 1022) - 52"
  from assms have pos: "0 < a" by simp
  have ulp: "pow2 ?e \<le> a"
  proof (cases "- 1022 \<le> ilog2 a")
    case True
    then have "pow2 ?e \<le> pow2 (ilog2 a)"
      by (intro pow2_mono) simp
    with ilog2_lower [OF pos] show ?thesis by simp
  next
    case False
    then have "pow2 ?e \<le> pow2 0"
      by (intro pow2_mono) simp
    also have "pow2 0 = 1" by (simp add: pow2_def)
    finally show ?thesis using assms by simp
  qed
  have "round_mag a = of_int (round_half_even (a / pow2 ?e)) * pow2 ?e"
    by (simp add: round_mag_def Let_def)
  also have "\<dots> \<le> (a / pow2 ?e + 1 / 2) * pow2 ?e"
    using round_half_even_upper [of "a / pow2 ?e"] pow2_pos [of ?e]
    by (simp add: mult_right_mono)
  also have "\<dots> = a + pow2 ?e / 2"
    using pow2_pos [of ?e] by (simp add: field_simps)
  also have "\<dots> \<le> 2 * a"
    using ulp pos by simp
  finally show ?thesis .
qed

lemma js_div_finite:
  assumes "0 < a" and "0 < c" and "round_mag (a / c) < 10 ^ 21"
  shows "js_div (Fin a) (Fin c) = Fin (round_mag (a / c))"
proof -
  have "(10::rat) ^ 21 < 2 ^ 1024" by simp
  with assms(3) have "\<not> 2 ^ 1024 \<le> round_mag (a / c)" by simp
  moreover have q: "0 < a / c"
    using assms(1,2) by simp
  moreover have "\<bar>a / c\<bar> = a / c" "a / c \<noteq> 0" "\<not> a / c < 0"
    using assms(1,2) q by (simp_all add: not_less less_imp_le)
  ultimately have "round_double (a / c) = Fin (round_mag (a / c))"
    unfolding round_double_def Let_def by simp
  moreover have "js_div (Fin a) (Fin c) = round_double (a / c)"
    using assms(2) by simp
  ultimately show ?thesis
    by simp
qed

lemma round_half_even_lower: "y - 1 / 2 \<le> of_int (round_half_even y)"
proof -
  define r where "r = y - of_int \<lfloor>y\<rfloor>"
  have y: "y = of_int \<lfloor>y\<rfloor> + r" and r: "r < 1"
    by (simp_all add: r_def) linarith
  have "round_half_even y = (if r < 1 / 2 then \<lfloor>y\<rfloor> else if 1 / 2 < r then \<lfloor>y\<rfloor> + 1
      else if even \<lfloor>y\<rfloor> then \<lfloor>y\<rfloor> else \<lfloor>y\<rfloor> + 1)"
    by (simp add: round_half_even_def Let_def r_def)
  moreover have "y - 1 / 2 \<le> of_int (\<lfloor>y\<rfloor> + 1)"
    using y r by simp
  moreover have "y - 1 / 2 \<le> of_int \<lfloor>y\<rfloor>" if "\<not> 1 / 2 < r"
    using y that by simp
  ultimately show ?thesis
    by auto
qed

text \<open>The rounded magnitude is within half a unit in the last place of the exact one.\<close>

lemma round_mag_error:
  "\<bar>round_mag a - a\<bar> \<le> pow2 (max (ilog2 a) (- 1022) - 52) / 2"
proof -
  let ?u = "pow2 (max (ilog2 a) (- 1022) - 52)"
  have u: "0 < ?u" by (rule pow2_pos)
  have "round_mag a - a = (of_int (round_half_even (a / ?u)) - a / ?u) * ?u"
    using u by (simp add: round_mag_def Let_def field_simps)
  moreover have "\<bar>of_int (round_half_even (a / ?u)) - a / ?u\<bar> \<le> 1 / 2"
    using round_half_even_lower [of "a / ?u"] round_half_even_upper [of "a / ?u"] by linarith
  ultimately have "\<bar>round_mag a - a\<bar> \<le> 1 / 2 * ?u"
    using u by (simp add: abs_mult mult_right_mono)
  then show ?thesis by simp
qed

subsection \<open>The formatters\<close>


lemma tenths_eval:
  "of_nat n \<le> d * 10 + 1 / 2 \<Longrightarrow> d * 10 + 1 / 2 < of_nat n + 1 \<Longrightarrow> tenths d = n"
proof -
  assume "of_nat n \<le> d * 10 + 1 / 2" and "d * 10 + 1 / 2 < of_nat n + 1"
  then have "\<lfloor>d * 10 + 1 / 2\<rfloor> = int n"
    by (intro floor_unique) simp_all
  then show ?thesis
    by (simp add: tenths_def)
qed


lemma one_decimal_integer:
  assumes "0 \<le> d" and "d = of_int \<lfloor>d\<rfloor>"
  shows "one_decimal_text d = digits (nat \<lfloor>d\<rfloor>)"
proof -
  define k where "k = \<lfloor>d\<rfloor>"
  from assms have k: "0 \<le> k" and d: "d = of_int k"
    by (simp_all add: k_def)
  have "\<lfloor>(of_int k :: rat) * 10 + 1 / 2\<rfloor> = k * 10"
    by (rule floor_unique) simp_all
  then have "tenths d = 10 * nat k"
    using k by (simp add: tenths_def d nat_mult_distrib)
  then show ?thesis
    by (simp add: one_decimal_text_def k_def)
qed

lemma compact_quotient:
  assumes "0 < a" and "0 < c" and "round_mag (a / c) < 10 ^ 21"
  shows "strip_dot_zero (toFixed 1 (js_div (Fin a) (Fin c))) = one_decimal_text (round_mag (a / c))"
proof -
  have "0 \<le> round_mag (a / c)"
    using assms(1,2) by (intro round_mag_nonneg) simp
  then show ?thesis
    by (simp only: js_div_finite [OF assms] strip_dot_zero_one_decimal [OF _ assms(3)])
qed

lemma compact_quotient_small:
  assumes "c \<le> a" and "a < c * 10 ^ 3" and "0 < c"
  shows "round_mag (a / c) < 10 ^ 21"
proof -
  from assms have "1 \<le> a / c" "a / c < 10 ^ 3"
    by (simp_all add: pos_le_divide_eq pos_divide_less_eq mult.commute)
  with round_mag_upper [of "a / c"] show ?thesis
    by simp
qed

lemma formatCompactNumber_finite:
  assumes "v \<noteq> 0"
  shows "formatCompactNumber (Num (Fin v)) =
     (let absValue = Fin \<bar>v\<bar>; sign = sign_text v
      in if 1000000000 \<le> \<bar>v\<bar> then
           sign @ strip_dot_zero (toFixed 1 (js_div absValue (Fin 1000000000))) @ ''B''
         else if 1000000 \<le> \<bar>v\<bar> then
           sign @ strip_dot_zero (toFixed 1 (js_div absValue (Fin 1000000))) @ ''M''
         else if 1000 \<le> \<bar>v\<bar> then
           (let divided = js_div absValue (Fin 1000)
            in if js_mod1 divided = Fin 0 then sign @ toFixed 0 divided @ ''K''
               else sign @ strip_dot_zero (toFixed 1 divided) @ ''K'')
         else sign @ formatNumber absValue)"
  using assms
  by (simp add: formatCompactNumber_def isNaN_def sign_text_def Let_def not_less)

lemma sign_decimal_text: "sign_text v @ decimal_text \<bar>v\<bar> = decimal_text v"
  by (simp add: decimal_text_def sign_text_def hundredths_def)










text \<open>
  C6 (as amended). For a finite number \<open>v\<close> other than 0, with \<open>a = |v|\<close> and the sign kept
  in front: from \<open>10^9\<close> on, the result is the binary64 quotient \<open>a / 10^9\<close> with one
  decimal, a trailing \<^verbatim>\<open>.0\<close> stripped, and the suffix \<^verbatim>\<open>B\<close>, provided the quotient is
  below \<open>10^21\<close>; from \<open>10^6\<close> on the same with \<open>a / 10^6\<close> and \<^verbatim>\<open>M\<close>; from \<open>10^3\<close> on the
  same with \<open>a / 10^3\<close> and \<^verbatim>\<open>K\<close> (a quotient that is an integer prints as that
  integer); below \<open>10^3\<close> the result is \<^verbatim>\<open>formatNumber\<close> of the value. 0, NaN, \<^verbatim>\<open>null\<close>
  and \<^verbatim>\<open>undefined\<close> give \<^verbatim>\<open>0\<close>.
\<close>

theorem compact_notation:
  assumes "v \<noteq> 0"
  shows "(1000000000 \<le> \<bar>v\<bar> \<and> round_mag (\<bar>v\<bar> / 1000000000) < 10 ^ 21 \<longrightarrow>
            formatCompactNumber (Num (Fin v))
              = sign_text v @ one_decimal_text (round_mag (\<bar>v\<bar> / 1000000000)) @ ''B'')
       \<and> (1000000 \<le> \<bar>v\<bar> \<and> \<bar>v\<bar> < 1000000000 \<longrightarrow>
            formatCompactNumber (Num (Fin v))
              = sign_text v @ one_decimal_text (round_mag (\<bar>v\<bar> / 1000000)) @ ''M'')
       \<and> (1000 \<le> \<bar>v\<bar> \<and> \<bar>v\<bar> < 1000000 \<longrightarrow>
            formatCompactNumber (Num (Fin v))
              = sign_text v @ one_decimal_text (round_mag (\<bar>v\<bar> / 1000)) @ ''K'')
       \<and> (\<bar>v\<bar> < 1000 \<longrightarrow>
            formatCompactNumber (Num (Fin v)) = formatNumber (Fin v)
            \<and> formatNumber (Fin v) = sign_text v @ formatNumber (Fin \<bar>v\<bar>))
       \<and> one_decimal_text (of_nat k) = digits k
       \<and> formatCompactNumber (Num (Fin 0)) = ''0''
       \<and> formatCompactNumber (Num NaN) = ''0''
       \<and> formatCompactNumber Null = ''0''
       \<and> formatCompactNumber Undefined = ''0''
       \<and> formatCompactNumber (Num (Fin 1500)) = ''1.5K''
       \<and> formatCompactNumber (Num (Fin 1000)) = ''1K''
       \<and> formatCompactNumber (Num (Fin 2500000)) = ''2.5M''
       \<and> formatCompactNumber (Num (Fin (- 2000))) = ''-2K''"
proof -
  from assms have a: "0 < \<bar>v\<bar>" by simp
  note f = formatCompactNumber_finite [OF assms, unfolded Let_def]
  have B: "formatCompactNumber (Num (Fin v))
      = sign_text v @ one_decimal_text (round_mag (\<bar>v\<bar> / 1000000000)) @ ''B''"
    if "1000000000 \<le> \<bar>v\<bar>" and "round_mag (\<bar>v\<bar> / 1000000000) < 10 ^ 21"
  proof -
    have c: "strip_dot_zero (toFixed 1 (js_div (Fin \<bar>v\<bar>) (Fin 1000000000)))
        = one_decimal_text (round_mag (\<bar>v\<bar> / 1000000000))"
      by (rule compact_quotient [OF a _ that(2)]) simp
    show ?thesis
      by (simp only: f that(1) if_True c)
  qed
  have M: "formatCompactNumber (Num (Fin v))
      = sign_text v @ one_decimal_text (round_mag (\<bar>v\<bar> / 1000000)) @ ''M''"
    if "1000000 \<le> \<bar>v\<bar>" and "\<bar>v\<bar> < 1000000000"
  proof -
    have b: "round_mag (\<bar>v\<bar> / 1000000) < 10 ^ 21"
      using that by (intro compact_quotient_small) simp_all
    have c: "strip_dot_zero (toFixed 1 (js_div (Fin \<bar>v\<bar>) (Fin 1000000)))
        = one_decimal_text (round_mag (\<bar>v\<bar> / 1000000))"
      by (rule compact_quotient [OF a _ b]) simp
    from that(2) have n: "\<not> 1000000000 \<le> \<bar>v\<bar>" by simp
    show ?thesis
      by (simp only: f n that(1) if_True if_False c)
  qed
  have K: "formatCompactNumber (Num (Fin v))
      = sign_text v @ one_decimal_text (round_mag (\<bar>v\<bar> / 1000)) @ ''K''"
    if "1000 \<le> \<bar>v\<bar>" and "\<bar>v\<bar> < 1000000"
  proof -
    let ?d = "round_mag (\<bar>v\<bar> / 1000)"
    have b: "?d < 10 ^ 21"
      using that by (intro compact_quotient_small) simp_all
    have n: "0 \<le> ?d"
      using a by (intro round_mag_nonneg) simp
    have j: "js_div (Fin \<bar>v\<bar>) (Fin 1000) = Fin ?d"
      using a b by (intro js_div_finite) simp_all
    from that(2) have m: "\<not> 1000000000 \<le> \<bar>v\<bar>" "\<not> 1000000 \<le> \<bar>v\<bar>" by simp_all
    have "formatCompactNumber (Num (Fin v))
        = (if js_mod1 (Fin ?d) = Fin 0 then sign_text v @ toFixed 0 (Fin ?d) @ ''K''
           else sign_text v @ strip_dot_zero (toFixed 1 (Fin ?d)) @ ''K'')"
      by (simp only: f m that(1) if_True if_False j)
    also have "\<dots> = sign_text v @ one_decimal_text ?d @ ''K''"
    proof (cases "js_mod1 (Fin ?d) = Fin 0")
      case True
      with n have i: "?d = of_int \<lfloor>?d\<rfloor>"
        by (simp add: not_less)
      show ?thesis
        by (simp only: True toFixed_zero_integer [OF n b i] one_decimal_integer [OF n i]) simp
    next
      case False
      show ?thesis
        by (simp only: False if_False strip_dot_zero_one_decimal [OF n b])
    qed
    finally show ?thesis .
  qed
  have S: "formatCompactNumber (Num (Fin v)) = formatNumber (Fin v)
      \<and> formatNumber (Fin v) = sign_text v @ formatNumber (Fin \<bar>v\<bar>)"
    if "\<bar>v\<bar> < 1000"
  proof -
    from that have 1: "\<bar>v\<bar> < 10 ^ 21" and 2: "\<bar>\<bar>v\<bar>\<bar> < 10 ^ 21" by simp_all
    from that have m: "\<not> 1000000000 \<le> \<bar>v\<bar>" "\<not> 1000000 \<le> \<bar>v\<bar>" "\<not> 1000 \<le> \<bar>v\<bar>"
      by simp_all
    have "formatCompactNumber (Num (Fin v)) = sign_text v @ formatNumber (Fin \<bar>v\<bar>)"
      by (simp only: f m if_False)
    then show ?thesis
      by (simp only: formatNumber_decimal_text [OF 1] formatNumber_decimal_text [OF 2]
          sign_decimal_text)
  qed
  have I: "one_decimal_text (of_nat k) = digits k"
    using one_decimal_integer [of "of_nat k"] by simp
  have Z: "formatCompactNumber (Num (Fin 0)) = ''0''" "formatCompactNumber (Num NaN) = ''0''"
    "formatCompactNumber Null = ''0''" "formatCompactNumber Undefined = ''0''"
    by (simp_all add: formatCompactNumber_def isNaN_def)
  have E: "formatCompactNumber (Num (Fin 1500)) = ''1.5K''"
    "formatCompactNumber (Num (Fin 1000)) = ''1K''"
    "formatCompactNumber (Num (Fin 2500000)) = ''2.5M''"
    "formatCompactNumber (Num (Fin (- 2000))) = ''-2K''"
    by code_simp+
  from B M K S I Z E show ?thesis
    by blast
qed

lemma round_mag_12345678901: "round_mag (12345678901 / 1000000000) = 868749920284053 / 70368744177664"
  by code_simp

theorem compact_notation_witness:
  "(- 12345678901 :: rat) \<noteq> 0 \<and> 1000000000 \<le> \<bar>- 12345678901 :: rat\<bar>
   \<and> round_mag (\<bar>- 12345678901\<bar> / 1000000000) < 10 ^ 21
   \<and> formatCompactNumber (Num (Fin (- 12345678901))) = ''-12.3B''"
proof -
  have n: "(- 12345678901 :: rat) \<noteq> 0" by simp
  have a: "\<bar>- 12345678901 :: rat\<bar> = 12345678901" by simp
  have b: "round_mag (\<bar>- 12345678901\<bar> / 1000000000) < 10 ^ 21"
    by (simp add: round_mag_12345678901)
  have t: "tenths (868749920284053 / 70368744177664) = 123"
    by (rule tenths_eval) simp_all
  have o: "one_decimal_text (round_mag (\<bar>- 12345678901\<bar> / 1000000000)) = ''12.3''"
    by (simp add: a round_mag_12345678901 one_decimal_text_def t digits_small digits_large digit_char_def)
  from compact_notation [OF n, THEN conjunct1] b
  have "formatCompactNumber (Num (Fin (- 12345678901)))
      = sign_text (- 12345678901) @ one_decimal_text (round_mag (\<bar>- 12345678901\<bar> / 1000000000)) @ ''B''"
    by simp
  then have "formatCompactNumber (Num (Fin (- 12345678901))) = ''-12.3B''"
    by (simp only: o) (simp add: sign_text_def)
  with n b show ?thesis
    by simp
qed

text \<open>
  C6 as stated fails where the quotient by \<open>10^9\<close> reaches \<open>10^21\<close>: the binary64 value
  nearest to \<open>1.25 * 10^30\<close> prints with two decimals and an exponent.
\<close>

theorem compact_exponent_counterexample:
  "round_double 1249999999999999954487036870656 = Fin 1249999999999999954487036870656
   \<and> formatCompactNumber (Num (Fin 1249999999999999954487036870656)) = ''1.25e+21B''"
  by code_simp

end
